theory Spec2Isabelle
  imports Main "HOL-Library.Finite_Map" "HOL-Library.Sublist"
begin

section \<open>Data model\<close>

text \<open>
  A Python \<open>str\<close> is a sequence of Unicode code points and \<open>len\<close> counts code points;
  a \<open>bytes\<close> or \<open>bytearray\<close> value is a sequence of integers below 256.  Both are lists
  of naturals here, and \<open>str\<close> turns an ASCII literal into the code points it denotes.
\<close>

type_synonym pystr = "nat list"
type_synonym bytes = "nat list"

definition str :: "string \<Rightarrow> pystr" where
  "str s = map of_char s"

text \<open>
  The exceptions that the functions of \<open>qiling/os/utils.py\<close> can let escape, with the
  messages that tell the \<open>TypeError\<close>s and \<open>ValueError\<close>s of the \<open>%\<close> operator apart.
  \<open>Unmodelled\<close> is not an exception: it marks the conversions whose text is outside this
  model (the floating point conversions, and \<open>repr\<close> and \<open>ascii\<close> of text).
\<close>

datatype type_error =
    NotAnAddress
  | NotEnoughArguments
  | NotAllArgumentsConverted
  | FormatRequiresMapping
  | StarWantsInt
  | NumberRequired
  | CharRequired

datatype value_error =
    IncompleteFormat
  | UnsupportedFormatCharacter
  | WidthTooBig
  | PrecisionTooBig

datatype error =
    MemoryAccessError
  | IndexError
  | TypeError type_error
  | ValueError value_error
  | OverflowError
  | UnicodeEncodeError
  | Unmodelled

text \<open>
  An element of the argument sequence: a raw integer as \<open>va_list\<close> produces it, or the
  text that \<open>__common_printf\<close> stores in its place.
\<close>

datatype pyval = PInt int | PStr pystr

subsection \<open>The memory subsystem\<close>

text \<open>
  Modelled from the spec: the memory manager \<open>ql.mem\<close> is not part of the file; the spec
  gives it as \<open>read(address, length) -> bytes\<close> and \<open>write(address, bytes) -> void\<close>,
  each failing with an unmapped or invalid access error.  The memory is a finite map from
  addresses to bytes; an access fails as soon as one of its addresses is unmapped.
\<close>

type_synonym memory = "(int, nat) fmap"

fun mem_read :: "memory \<Rightarrow> int \<Rightarrow> nat \<Rightarrow> error + bytes" where
  "mem_read m a 0 = Inr []"
| "mem_read m a (Suc n) =
     (case fmlookup m a of
        None \<Rightarrow> Inl MemoryAccessError
      | Some b \<Rightarrow>
          (case mem_read m (a + 1) n of
             Inl e \<Rightarrow> Inl e
           | Inr bs \<Rightarrow> Inr (b # bs)))"



text \<open>
  The state the functions work on: the emulated memory, the strings reported to the
  statistics collector (\<open>ql.os.stats.log_string\<close>) and the bytes sent to the standard
  output of the emulated process.
\<close>

record os_state =
  mem :: memory
  logged :: "pystr list"
  stdout :: bytes

section \<open>Decoding and encoding text\<close>

text \<open>
  \<open>bytearray.decode(errors="ignore")\<close> decodes UTF-8 and drops what does not decode:
  an invalid start byte, a start byte with the valid continuation bytes read so far
  when the next byte does not continue the sequence, and a truncated sequence at the end
  of the data.
\<close>

definition is_continuation :: "nat \<Rightarrow> bool" where
  "is_continuation b \<longleftrightarrow> 128 \<le> b \<and> b < 192"

fun decode_ignore :: "bytes \<Rightarrow> pystr" where
  "decode_ignore [] = []"
| "decode_ignore (b # rest) =
     (if b < 128 then b # decode_ignore rest
      else if b < 194 then decode_ignore rest
      else if b < 224 then
        (case rest of
           [] \<Rightarrow> []
         | b2 # r2 \<Rightarrow>
             if is_continuation b2
             then ((b - 192) * 64 + (b2 - 128)) # decode_ignore r2
             else decode_ignore rest)
      else if b < 240 then
        (case rest of
           [] \<Rightarrow> []
         | b2 # r2 \<Rightarrow>
             if \<not> is_continuation b2 \<or> (if b2 < 160 then b = 224 else b = 237)
             then decode_ignore rest
             else
               (case r2 of
                  [] \<Rightarrow> []
                | b3 # r3 \<Rightarrow>
                    if \<not> is_continuation b3 then decode_ignore r2
                    else ((b - 224) * 4096 + (b2 - 128) * 64 + (b3 - 128))
                           # decode_ignore r3))
      else if b < 245 then
        (case rest of
           [] \<Rightarrow> []
         | b2 # r2 \<Rightarrow>
             if \<not> is_continuation b2 \<or> (if b2 < 144 then b = 240 else b = 244)
             then decode_ignore rest
             else
               (case r2 of
                  [] \<Rightarrow> []
                | b3 # r3 \<Rightarrow>
                    if \<not> is_continuation b3 then decode_ignore r2
                    else
                      (case r3 of
                         [] \<Rightarrow> []
                       | b4 # r4 \<Rightarrow>
                           if \<not> is_continuation b4 then decode_ignore r3
                           else ((b - 240) * 262144 + (b2 - 128) * 4096
                                   + (b3 - 128) * 64 + (b4 - 128))
                                  # decode_ignore r4)))
      else decode_ignore rest)"

section \<open>String extraction\<close>

text \<open>
  \<open>read_string\<close>: the chunk is read before the loop and at the end of each round, that
  is, once before each test of the loop condition; \<open>read_loop\<close> reads it at the top.
\<close>

lemma mem_read_length: "mem_read m a n = Inr bs \<Longrightarrow> length bs = n"
  by (induction n arbitrary: a bs) (auto split: option.splits sum.splits)

lemma mem_read_mapped: "mem_read m a (Suc n) = Inr bs \<Longrightarrow> a \<in> fmdom' m"
  by (auto split: option.splits intro: fmdom'I)

function read_loop :: "memory \<Rightarrow> int \<Rightarrow> bytes \<Rightarrow> bytes \<Rightarrow> error + bytes" where
  "read_loop m address terminator result =
     (case mem_read m address (length terminator) of
        Inl e \<Rightarrow> Inl e
      | Inr char \<Rightarrow>
          if char \<noteq> terminator
          then read_loop m (address + int (length terminator)) terminator (result @ char)
          else Inr result)"
  by pat_completeness auto

termination
proof (relation "measure (\<lambda>(m, address, terminator, result).
                   card {a \<in> fmdom' m. address \<le> a})", goal_cases)
  case 1
  show ?case by simp
next
  case (2 m address terminator result char)
  from 2 have len: "length char = length terminator"
    by (simp add: mem_read_length)
  with 2 have "terminator \<noteq> []" by auto
  then obtain n where n: "length terminator = Suc n"
    by (cases terminator) auto
  with 2 have "address \<in> fmdom' m"
    using mem_read_mapped by metis
  then have "address \<in> {a \<in> fmdom' m. address \<le> a}"
    and "address \<notin> {a \<in> fmdom' m. address + int (length terminator) \<le> a}"
    using n by auto
  moreover have "{a \<in> fmdom' m. address + int (length terminator) \<le> a}
               \<subseteq> {a \<in> fmdom' m. address \<le> a}"
    by auto
  ultimately have "{a \<in> fmdom' m. address + int (length terminator) \<le> a}
               \<subset> {a \<in> fmdom' m. address \<le> a}"
    by blast
  then show ?case
    by (simp add: psubset_card_mono)
qed

definition read_string :: "memory \<Rightarrow> int \<Rightarrow> bytes \<Rightarrow> error + pystr" where
  "read_string m address terminator =
     (case read_loop m address terminator [] of
        Inl e \<Rightarrow> Inl e
      | Inr result \<Rightarrow> Inr (decode_ignore result))"

declare read_loop.simps [simp del]

text \<open>
  \<open>str.replace(old, new)\<close>: the occurrences of \<open>old\<close> are found from left to right and do
  not overlap; an empty \<open>old\<close> matches before every character and at the end.
\<close>

fun replace :: "pystr \<Rightarrow> pystr \<Rightarrow> pystr \<Rightarrow> pystr" where
  "replace s [] new = new @ concat (map (\<lambda>c. c # new) s)"
| "replace [] (x # xs) new = []"
| "replace (c # cs) (x # xs) new =
     (if prefix (x # xs) (c # cs)
      then new @ replace (drop (length xs) cs) (x # xs) new
      else c # replace cs (x # xs) new)"

definition read_wstring :: "os_state \<Rightarrow> int \<Rightarrow> (error + pystr) \<times> os_state" where
  "read_wstring st address =
     (case read_string (mem st) address [0, 0] of
        Inl e \<Rightarrow> (Inl e, st)
      | Inr s \<Rightarrow>
          (let s' = replace s [0] []
           in (Inr s', st\<lparr>logged := logged st @ [s']\<rparr>)))"

definition read_cstring :: "os_state \<Rightarrow> int \<Rightarrow> (error + pystr) \<times> os_state" where
  "read_cstring st address =
     (case read_string (mem st) address [0] of
        Inl e \<Rightarrow> (Inl e, st)
      | Inr s \<Rightarrow> (Inr s, st\<lparr>logged := logged st @ [s]\<rparr>))"

section \<open>Encoding text\<close>

text \<open>
  \<open>str.encode('utf-8')\<close> and \<open>str.encode('utf-16le')\<close> with the default strict error
  handling: a surrogate code point raises \<open>UnicodeEncodeError\<close>.  A number that is no
  code point at all (above \<open>0x10FFFF\<close>) is in no Python string; the model rejects it
  the same way.
\<close>

definition encode_char_utf8 :: "nat \<Rightarrow> error + bytes" where
  "encode_char_utf8 c =
     (if c < 128 then Inr [c]
      else if c < 2048 then Inr [192 + c div 64, 128 + c mod 64]
      else if 55296 \<le> c \<and> c < 57344 then Inl UnicodeEncodeError
      else if c < 65536 then Inr [224 + c div 4096, 128 + c div 64 mod 64, 128 + c mod 64]
      else if c < 1114112 then
        Inr [240 + c div 262144, 128 + c div 4096 mod 64, 128 + c div 64 mod 64,
             128 + c mod 64]
      else Inl UnicodeEncodeError)"


fun encode_with :: "(nat \<Rightarrow> error + bytes) \<Rightarrow> pystr \<Rightarrow> error + bytes" where
  "encode_with enc [] = Inr []"
| "encode_with enc (c # cs) =
     (case enc c of
        Inl e \<Rightarrow> Inl e
      | Inr bs \<Rightarrow>
          (case encode_with enc cs of
             Inl e \<Rightarrow> Inl e
           | Inr rest \<Rightarrow> Inr (bs @ rest)))"

definition encode_utf8 :: "pystr \<Rightarrow> error + bytes" where
  "encode_utf8 = encode_with encode_char_utf8"


section \<open>The \<open>%\<close> operator on a string and a tuple\<close>

text \<open>
  \<open>out % tuple(args)\<close> is the printf-style formatting of the language, here as CPython
  3.11 performs it on a tuple of integers and strings: \<open>%%\<close> is a literal percent sign; a
  conversion is made of flags, a width, a precision, one ignored length modifier and the
  conversion character; \<open>*\<close> takes the width or the precision from the arguments.  The
  floating point conversions, and \<open>%r\<close> and \<open>%a\<close> of text, give \<open>Unmodelled\<close>.
\<close>

abbreviation ord :: "char \<Rightarrow> nat" where
  "ord c \<equiv> of_char c"

record conv_spec =
  ljust :: bool
  plus :: bool
  blank :: bool
  alt :: bool
  zero :: bool
  width :: "nat option"
  prec :: "nat option"

definition no_spec :: conv_spec where
  "no_spec = \<lparr>ljust = False, plus = False, blank = False, alt = False, zero = False,
              width = None, prec = None\<rparr>"

fun parse_flags :: "conv_spec \<Rightarrow> pystr \<Rightarrow> conv_spec \<times> pystr" where
  "parse_flags sp [] = (sp, [])"
| "parse_flags sp (c # cs) =
     (if c = ord CHR ''-'' then parse_flags (sp\<lparr>ljust := True\<rparr>) cs
      else if c = ord CHR ''+'' then parse_flags (sp\<lparr>plus := True\<rparr>) cs
      else if c = ord CHR '' '' then parse_flags (sp\<lparr>blank := True\<rparr>) cs
      else if c = ord CHR ''#'' then parse_flags (sp\<lparr>alt := True\<rparr>) cs
      else if c = ord CHR ''0'' then parse_flags (sp\<lparr>zero := True\<rparr>) cs
      else (sp, c # cs))"

definition is_digit :: "nat \<Rightarrow> bool" where
  "is_digit c \<longleftrightarrow> ord CHR ''0'' \<le> c \<and> c \<le> ord CHR ''9''"

fun parse_number :: "nat \<Rightarrow> value_error \<Rightarrow> nat \<Rightarrow> pystr \<Rightarrow> error + nat \<times> pystr" where
  "parse_number lim e acc [] = Inr (acc, [])"
| "parse_number lim e acc (c # cs) =
     (if is_digit c
      then (if acc > (lim - (c - ord CHR ''0'')) div 10 then Inl (ValueError e)
            else parse_number lim e (acc * 10 + (c - ord CHR ''0'')) cs)
      else Inr (acc, c # cs))"

definition getnextarg :: "pyval list \<Rightarrow> error + pyval \<times> pyval list" where
  "getnextarg args =
     (case args of
        [] \<Rightarrow> Inl (TypeError NotEnoughArguments)
      | v # rest \<Rightarrow> Inr (v, rest))"

definition star_arg :: "int \<Rightarrow> pyval list \<Rightarrow> error + int \<times> pyval list" where
  "star_arg lim args =
     (case getnextarg args of
        Inl e \<Rightarrow> Inl e
      | Inr (PStr s, rest) \<Rightarrow> Inl (TypeError StarWantsInt)
      | Inr (PInt v, rest) \<Rightarrow>
          if v < - lim - 1 \<or> lim < v then Inl OverflowError else Inr (v, rest))"

definition SSIZE_T_MAX :: int where "SSIZE_T_MAX = 2 ^ 63 - 1"
definition INT_MAX :: int where "INT_MAX = 2 ^ 31 - 1"

definition parse_width :: "conv_spec \<Rightarrow> pystr \<Rightarrow> pyval list \<Rightarrow> error + conv_spec \<times> pystr \<times> pyval list" where
  "parse_width sp fmt args =
     (case fmt of
        [] \<Rightarrow> Inr (sp, fmt, args)
      | c # cs \<Rightarrow>
          if c = ord CHR ''*'' then
            (case star_arg SSIZE_T_MAX args of
               Inl e \<Rightarrow> Inl e
             | Inr (v, rest) \<Rightarrow>
                 if v < 0 then Inr (sp\<lparr>ljust := True, width := Some (nat (- v))\<rparr>, cs, rest)
                 else Inr (sp\<lparr>width := Some (nat v)\<rparr>, cs, rest))
          else if is_digit c then
            (case parse_number (nat SSIZE_T_MAX) WidthTooBig 0 fmt of
               Inl e \<Rightarrow> Inl e
             | Inr (w, fmt') \<Rightarrow> Inr (sp\<lparr>width := Some w\<rparr>, fmt', args))
          else Inr (sp, fmt, args))"

definition parse_prec :: "conv_spec \<Rightarrow> pystr \<Rightarrow> pyval list \<Rightarrow> error + conv_spec \<times> pystr \<times> pyval list" where
  "parse_prec sp fmt args =
     (case fmt of
        [] \<Rightarrow> Inr (sp, fmt, args)
      | c # cs \<Rightarrow>
          if c = ord CHR ''.'' then
            (case cs of
               [] \<Rightarrow> Inr (sp\<lparr>prec := Some 0\<rparr>, cs, args)
             | d # ds \<Rightarrow>
                 if d = ord CHR ''*'' then
                   (case star_arg INT_MAX args of
                      Inl e \<Rightarrow> Inl e
                    | Inr (v, rest) \<Rightarrow> Inr (sp\<lparr>prec := Some (nat v)\<rparr>, ds, rest))
                 else if is_digit d then
                   (case parse_number (nat INT_MAX) PrecisionTooBig 0 cs of
                      Inl e \<Rightarrow> Inl e
                    | Inr (p, fmt') \<Rightarrow> Inr (sp\<lparr>prec := Some p\<rparr>, fmt', args))
                 else Inr (sp\<lparr>prec := Some 0\<rparr>, cs, args))
          else Inr (sp, fmt, args))"

definition skip_length_modifier :: "pystr \<Rightarrow> pystr" where
  "skip_length_modifier fmt =
     (case fmt of
        [] \<Rightarrow> []
      | c # cs \<Rightarrow>
          if c = ord CHR ''h'' \<or> c = ord CHR ''l'' \<or> c = ord CHR ''L'' then cs else fmt)"

definition parse_spec :: "pystr \<Rightarrow> pyval list \<Rightarrow> error + conv_spec \<times> nat \<times> pystr \<times> pyval list" where
  "parse_spec fmt args =
     (if prefix (str ''('') fmt then Inl (TypeError FormatRequiresMapping)
      else
        (case parse_flags no_spec fmt of
           (sp1, fmt1) \<Rightarrow>
             (case parse_width sp1 fmt1 args of
                Inl e \<Rightarrow> Inl e
              | Inr (sp2, fmt2, args2) \<Rightarrow>
                  (case parse_prec sp2 fmt2 args2 of
                     Inl e \<Rightarrow> Inl e
                   | Inr (sp3, fmt3, args3) \<Rightarrow>
                       (case skip_length_modifier fmt3 of
                          [] \<Rightarrow> Inl (ValueError IncompleteFormat)
                        | ch # fmt4 \<Rightarrow> Inr (sp3, ch, fmt4, args3))))))"

definition digit_char :: "nat \<Rightarrow> nat" where
  "digit_char d = (if d < 10 then ord CHR ''0'' + d else ord CHR ''a'' + (d - 10))"

fun digits :: "nat \<Rightarrow> nat \<Rightarrow> pystr" where
  "digits b n =
     (if b < 2 \<or> n < b then [digit_char n]
      else digits b (n div b) @ [digit_char (n mod b)])"


definition decimal :: "int \<Rightarrow> pystr" where
  "decimal v = (if v < 0 then ord CHR ''-'' # digits 10 (nat (- v)) else digits 10 (nat v))"

definition upper_hex :: "nat \<Rightarrow> nat" where
  "upper_hex c = (if ord CHR ''a'' \<le> c \<and> c \<le> ord CHR ''x'' then c - 32 else c)"

definition is_radix_conv :: "nat \<Rightarrow> bool" where
  "is_radix_conv ch \<longleftrightarrow> ch = ord CHR ''x'' \<or> ch = ord CHR ''X'' \<or> ch = ord CHR ''o''"

definition format_long :: "conv_spec \<Rightarrow> nat \<Rightarrow> int \<Rightarrow> pystr" where
  "format_long sp ch v =
     (let base = (if ch = ord CHR ''o'' then 8
                  else if ch = ord CHR ''x'' \<or> ch = ord CHR ''X'' then 16 else 10);
          ds = digits base (nat \<bar>v\<bar>);
          zs = (case prec sp of None \<Rightarrow> [] | Some p \<Rightarrow> replicate (p - length ds) (ord CHR ''0''));
          marker = (if alt sp \<and> is_radix_conv ch
                    then [ord CHR ''0'', if ch = ord CHR ''o'' then ch else ord CHR ''x'']
                    else []);
          sgn = (if v < 0 then [ord CHR ''-''] else []);
          s = sgn @ marker @ zs @ ds
      in if ch = ord CHR ''X'' then map upper_hex s else s)"

definition split_sign :: "conv_spec \<Rightarrow> pystr \<Rightarrow> pystr \<times> pystr" where
  "split_sign sp s =
     (if s \<noteq> [] \<and> (hd s = ord CHR ''-'' \<or> hd s = ord CHR ''+'') then ([hd s], tl s)
      else if plus sp then ([ord CHR ''+''], s)
      else if blank sp then ([ord CHR '' ''], s)
      else ([], s))"

definition pad_output :: "conv_spec \<Rightarrow> nat \<Rightarrow> bool \<Rightarrow> pystr \<Rightarrow> pystr" where
  "pad_output sp ch numeric s =
     (let s1 = (if ch = ord CHR ''s'' \<or> ch = ord CHR ''r'' \<or> ch = ord CHR ''a''
                then (case prec sp of None \<Rightarrow> s | Some p \<Rightarrow> take p s) else s);
          (signchar, body) = (if numeric then split_sign sp s1 else ([], s1));
          w0 = max (case width sp of None \<Rightarrow> 0 | Some w \<Rightarrow> w) (length body);
          fill = (if numeric \<and> zero sp then ord CHR ''0'' else ord CHR '' '');
          w1 = (if signchar \<noteq> [] \<and> w0 > length body then w0 - 1 else w0);
          marked = (alt sp \<and> is_radix_conv ch);
          marker = (if marked then take 2 body else []);
          body2 = (if marked then drop 2 body else body);
          w2 = (if marked then w1 - 2 else w1);
          leftpad = (if w2 > length body2 \<and> \<not> ljust sp
                     then replicate (w2 - length body2) fill else []);
          w3 = (if w2 > length body2 \<and> \<not> ljust sp then length body2 else w2);
          rightpad = replicate (w3 - length body2) (ord CHR '' '')
      in if fill \<noteq> ord CHR '' '' then signchar @ marker @ leftpad @ body2 @ rightpad
         else leftpad @ signchar @ marker @ body2 @ rightpad)"

definition format_char :: "pyval \<Rightarrow> error + pystr" where
  "format_char v =
     (case v of
        PInt n \<Rightarrow> if n < 0 \<or> 1114112 \<le> n then Inl OverflowError else Inr [nat n]
      | PStr t \<Rightarrow> if length t = 1 then Inr t else Inl (TypeError CharRequired))"

definition format_arg :: "conv_spec \<Rightarrow> nat \<Rightarrow> pyval \<Rightarrow> error + pystr" where
  "format_arg sp ch v =
     (if ch = ord CHR ''s'' \<or> ch = ord CHR ''r'' \<or> ch = ord CHR ''a'' then
        (case v of
           PInt n \<Rightarrow> Inr (pad_output sp ch False (decimal n))
         | PStr t \<Rightarrow> if ch = ord CHR ''s'' then Inr (pad_output sp ch False t) else Inl Unmodelled)
      else if ch = ord CHR ''i'' \<or> ch = ord CHR ''d'' \<or> ch = ord CHR ''u''
              \<or> ch = ord CHR ''o'' \<or> ch = ord CHR ''x'' \<or> ch = ord CHR ''X'' then
        (case v of
           PInt n \<Rightarrow> Inr (pad_output sp ch True (format_long sp ch n))
         | PStr t \<Rightarrow> Inl (TypeError NumberRequired))
      else if ch = ord CHR ''e'' \<or> ch = ord CHR ''E'' \<or> ch = ord CHR ''f''
              \<or> ch = ord CHR ''F'' \<or> ch = ord CHR ''g'' \<or> ch = ord CHR ''G'' then
        Inl Unmodelled
      else if ch = ord CHR ''c'' then
        (case format_char v of
           Inl e \<Rightarrow> Inl e
         | Inr t \<Rightarrow> Inr (pad_output sp ch False t))
      else Inl (ValueError UnsupportedFormatCharacter))"

lemma parse_flags_length: "parse_flags sp fmt = (sp', fmt') \<Longrightarrow> length fmt' \<le> length fmt"
  by (induction sp fmt rule: parse_flags.induct) (auto split: if_splits)

lemma parse_number_length:
  "parse_number lim e acc fmt = Inr (n, fmt') \<Longrightarrow> length fmt' \<le> length fmt"
  by (induction lim e acc fmt rule: parse_number.induct) (auto split: if_splits)

lemma parse_width_length:
  "parse_width sp fmt args = Inr (sp', fmt', args') \<Longrightarrow> length fmt' \<le> length fmt"
  by (auto simp: parse_width_def split: list.splits if_splits sum.splits dest: parse_number_length)

lemma parse_prec_length:
  "parse_prec sp fmt args = Inr (sp', fmt', args') \<Longrightarrow> length fmt' \<le> length fmt"
  by (auto simp: parse_prec_def split: list.splits if_splits sum.splits
      dest!: parse_number_length)

lemma skip_length_modifier_length: "length (skip_length_modifier fmt) \<le> length fmt"
  by (auto simp: skip_length_modifier_def split: list.splits)

lemma parse_spec_length:
  assumes "parse_spec fmt args = Inr (sp, ch, fmt', args')"
  shows "length fmt' < length fmt"
proof -
  from assms obtain sp1 fmt1 sp2 fmt2 args2 sp3 fmt3 where
      f: "parse_flags no_spec fmt = (sp1, fmt1)"
    and w: "parse_width sp1 fmt1 args = Inr (sp2, fmt2, args2)"
    and p: "parse_prec sp2 fmt2 args2 = Inr (sp3, fmt3, args')"
    and m: "skip_length_modifier fmt3 = ch # fmt'"
    by (auto simp: parse_spec_def split: if_splits prod.splits sum.splits list.splits)
  have "length (ch # fmt') \<le> length fmt3"
    using skip_length_modifier_length [of fmt3] m by simp
  also have "\<dots> \<le> length fmt2" using p by (rule parse_prec_length)
  also have "\<dots> \<le> length fmt1" using w by (rule parse_width_length)
  also have "\<dots> \<le> length fmt" using f by (rule parse_flags_length)
  finally show ?thesis by simp
qed

function format_loop :: "pystr \<Rightarrow> pyval list \<Rightarrow> pystr \<Rightarrow> error + pystr" where
  "format_loop [] args acc =
     (if args = [] then Inr acc else Inl (TypeError NotAllArgumentsConverted))"
| "format_loop (c # fmt) args acc =
     (if c \<noteq> ord CHR ''%'' then format_loop fmt args (acc @ [c])
      else if prefix (str ''%'') fmt then format_loop (tl fmt) args (acc @ str ''%'')
      else
        (case parse_spec fmt args of
           Inl e \<Rightarrow> Inl e
         | Inr (sp, ch, fmt', args') \<Rightarrow>
             (case getnextarg args' of
                Inl e \<Rightarrow> Inl e
              | Inr (v, args'') \<Rightarrow>
                  (case format_arg sp ch v of
                     Inl e \<Rightarrow> Inl e
                   | Inr t \<Rightarrow> format_loop fmt' args'' (acc @ t)))))"
  by pat_completeness auto
termination
  by (relation "measure (\<lambda>(fmt, args, acc). length fmt)")
     (auto dest: parse_spec_length simp: prefix_def)

definition percent_format :: "pystr \<Rightarrow> pyval list \<Rightarrow> error + pystr" where
  "percent_format fmt args = format_loop fmt args []"

section \<open>The format string interpreter\<close>

text \<open>
  \<open>format.split("%")\<close> with its one-character separator: the pieces between the
  occurrences of the separator, one more than there are occurrences.
\<close>

fun split_on :: "nat \<Rightarrow> pystr \<Rightarrow> pystr \<Rightarrow> pystr list" where
  "split_on sep cur [] = [cur]"
| "split_on sep cur (c # cs) =
     (if c = sep then cur # split_on sep [] cs else split_on sep (cur @ [c]) cs)"

definition reader :: "bool \<Rightarrow> os_state \<Rightarrow> int \<Rightarrow> (error + pystr) \<times> os_state" where
  "reader wstring = (if wstring then read_wstring else read_cstring)"

text \<open>
  The loop \<open>for i, f in enumerate(fmtstr)\<close> of \<open>__common_printf\<close>.  The argument sequence
  is the caller's and is updated in place, so it is returned together with the state, also
  when an exception ends the loop.  \<open>args[i]\<close> raises \<open>IndexError\<close> out of range, and a
  text where an address is expected is rejected by the memory read.
\<close>

fun resolve :: "bool \<Rightarrow> nat \<Rightarrow> pystr list \<Rightarrow> pyval list \<Rightarrow> os_state
                 \<Rightarrow> error option \<times> pyval list \<times> os_state" where
  "resolve wstring i [] args st = (None, args, st)"
| "resolve wstring i (f # fs) args st =
     (if prefix (str ''s'') f then
        (if i < length args then
           (case args ! i of
              PInt a \<Rightarrow>
                (case reader wstring st a of
                   (Inl e, st') \<Rightarrow> (Some e, args, st')
                 | (Inr s, st') \<Rightarrow> resolve wstring (Suc i) fs (args[i := PStr s]) st')
            | PStr t \<Rightarrow> (Some (TypeError NotAnAddress), args, st))
         else (Some IndexError, args, st))
      else resolve wstring (Suc i) fs args st)"

definition common_printf :: "pystr \<Rightarrow> pyval list \<Rightarrow> bool \<Rightarrow> os_state
                 \<Rightarrow> (error + pystr) \<times> pyval list \<times> os_state" where
  "common_printf format args wstring st =
     (let fmtstr = drop 1 (split_on (ord CHR ''%'') [] format)
      in case resolve wstring 0 fmtstr args st of
           (Some e, args', st') \<Rightarrow> (Inl e, args', st')
         | (None, args', st') \<Rightarrow>
             (let out = replace format (str ''%llx'') (str ''%x'');
                  out = replace out (str ''%p'') (str ''%#x'')
              in (percent_format out args', args', st')))"

section \<open>The variadic argument marshaller\<close>

text \<open>
  \<open>va_list\<close> reads through \<open>ql.mem.read_ptr\<close>, which is not part of the file; it is the
  parameter \<open>read_ptr\<close>.  The list comprehension reads in order and stops at the first
  read that raises.
\<close>

fun read_all :: "(int \<Rightarrow> error + int) \<Rightarrow> int list \<Rightarrow> error + int list" where
  "read_all read_ptr [] = Inr []"
| "read_all read_ptr (a # as) =
     (case read_ptr a of
        Inl e \<Rightarrow> Inl e
      | Inr v \<Rightarrow>
          (case read_all read_ptr as of
             Inl e \<Rightarrow> Inl e
           | Inr vs \<Rightarrow> Inr (v # vs)))"

definition va_list :: "(int \<Rightarrow> error + int) \<Rightarrow> int \<Rightarrow> pystr \<Rightarrow> int \<Rightarrow> error + int list" where
  "va_list read_ptr pointersize format ptr =
     (let count = count_list format (ord CHR ''%'')
      in read_all read_ptr (map (\<lambda>i. ptr + int i * pointersize) [0 ..< count]))"

text \<open>
  Modelled from the spec: \<open>read_pointer_sized(address) -> integer\<close> of the memory
  subsystem, here for a little-endian architecture: the pointer-sized bytes at the
  address, least significant first.
\<close>

fun le_value :: "bytes \<Rightarrow> int" where
  "le_value [] = 0"
| "le_value (b # bs) = int b + 256 * le_value bs"

definition mem_read_ptr :: "memory \<Rightarrow> nat \<Rightarrow> int \<Rightarrow> error + int" where
  "mem_read_ptr m pointersize a =
     (case mem_read m a pointersize of
        Inl e \<Rightarrow> Inl e
      | Inr bs \<Rightarrow> Inr (le_value bs))"

section \<open>The output sinks\<close>



definition printf :: "pystr \<Rightarrow> pyval list \<Rightarrow> bool \<Rightarrow> os_state
                 \<Rightarrow> (error + int) \<times> pyval list \<times> os_state" where
  "printf format args wstring st =
     (case common_printf format args wstring st of
        (Inl e, args', st') \<Rightarrow> (Inl e, args', st')
      | (Inr out, args', st') \<Rightarrow>
          (case encode_utf8 out of
             Inl e \<Rightarrow> (Inl e, args', st')
           | Inr bs \<Rightarrow> (Inr (int (length out)), args', st'\<lparr>stdout := stdout st' @ bs\<rparr>)))"

section \<open>The invocation tracer\<close>

text \<open>
  \<open>print_function\<close> builds one line and hands it to \<open>ql.log.debug\<close> or \<open>ql.log.info\<close>; the
  model returns the channel and the line.  The return value is an integer, a text or
  \<open>None\<close>.  \<open>ql.arch.bits\<close>, \<open>ql.verbose\<close> and the constant \<open>QL_VERBOSE.DEBUG\<close> are not
  part of the file: they are the parameters \<open>bits\<close>, \<open>verbose\<close> and \<open>debug\<close>.
\<close>

datatype retval = RNone | RInt int | RStr pystr

datatype channel = Debug | Info

definition ELLIPSIS_PREF :: pystr where
  "ELLIPSIS_PREF = str ''__qlva_''"

fun join :: "pystr \<Rightarrow> pystr list \<Rightarrow> pystr" where
  "join sep [] = []"
| "join sep [x] = x"
| "join sep (x # y # ys) = x @ sep @ join sep (y # ys)"

text \<open>
  The format specifications \<open>#x\<close> and \<open>#0Nx\<close> of an integer: the sign, \<open>0x\<close>, and the
  hexadecimal digits, after zeros that fill the whole up to \<open>N\<close> characters.
\<close>

definition format_hex :: "nat \<Rightarrow> int \<Rightarrow> pystr" where
  "format_hex n v =
     (let sgn = (if v < 0 then str ''-'' else []);
          ds = digits 16 (nat \<bar>v\<bar>)
      in sgn @ str ''0x'' @ replicate (n - (length sgn + 2 + length ds)) (ord CHR ''0'') @ ds)"

definition assign_arg :: "pystr \<times> pystr \<Rightarrow> pystr" where
  "assign_arg p =
     (case p of
        (name, value) \<Rightarrow>
          (let name = (if prefix ELLIPSIS_PREF name then [] else name)
           in if name \<noteq> [] then name @ str '' = '' @ value else value))"

definition print_function :: "nat \<Rightarrow> int \<Rightarrow> int \<Rightarrow> int \<Rightarrow> pystr \<Rightarrow> (pystr \<times> pystr) list
                 \<Rightarrow> retval \<Rightarrow> bool \<Rightarrow> channel \<times> pystr" where
  "print_function bits verbose debug address fname pargs ret passthru =
     (let fname = (if prefix (str ''hook_'') fname then drop 5 fname else fname);
          fargs = join (str '', '') (map assign_arg pargs);
          ret = (case ret of RInt v \<Rightarrow> RStr (format_hex 0 v) | _ \<Rightarrow> ret);
          fret = (case ret of RNone \<Rightarrow> [] | RStr r \<Rightarrow> str '' = '' @ r | RInt v \<Rightarrow> []);
          fpass = (if passthru then str '' (PASSTHRU)'' else []);
          faddr = (if verbose \<ge> debug
                   then format_hex (bits div 4 + 2) address @ str '': '' else []);
          log = faddr @ fname @ str ''('' @ fargs @ str '')'' @ fret @ fpass
      in if verbose \<ge> debug then (Debug, log) else (Info, log))"

declare digits.simps [simp del]
declare format_loop.simps [simp del]

section \<open>Properties of string extraction\<close>

lemma replace_char_empty: "replace s [c] [] = filter (\<lambda>x. x \<noteq> c) s"
  by (induction s) auto

text \<open>
  C8.  Whatever the memory holds, the text that \<open>read_wstring\<close> returns has no null
  character in it.
\<close>

theorem read_wstring_no_null:
  "fst (read_wstring st address) = Inr s \<Longrightarrow> 0 \<notin> set s"
  by (auto simp: read_wstring_def replace_char_empty Let_def split: sum.splits)

lemma mem_read_append:
  "mem_read m a (length xs + length ys) = Inr (xs @ ys) \<longleftrightarrow>
     mem_read m a (length xs) = Inr xs \<and> mem_read m (a + int (length xs)) (length ys) = Inr ys"
proof (induction xs arbitrary: a)
  case Nil
  then show ?case by simp
next
  case (Cons x xs)
  have eq: "a + 1 + int (length xs) = a + int (length (x # xs))" by simp
  show ?case
    using Cons.IH [of "a + 1"] unfolding eq
    by (auto split: option.splits sum.splits)
qed

text \<open>
  The loop takes the data in chunks of the terminator's length: when the data is a whole
  number of chunks, none of them the terminator, and the terminator follows, the loop
  stops at the terminator with the data accumulated.
\<close>

lemma read_loop_chunks:
  assumes "length b = k * length t" and "\<not> sublist t b"
    and "mem_read m a (length b + length t) = Inr (b @ t)"
  shows "read_loop m a t acc = Inr (acc @ b)"
  using assms
proof (induction k arbitrary: b a acc)
  case 0
  then show ?case by (simp add: read_loop.simps)
next
  case (Suc k)
  let ?n = "length t"
  define c where "c = take ?n b"
  define b' where "b' = drop ?n b"
  have b: "b = c @ b'" by (simp add: c_def b'_def)
  have lc: "length c = ?n" using Suc.prems(1) by (simp add: c_def)
  have lb': "length b' = k * ?n" using Suc.prems(1) by (simp add: b'_def)
  have "mem_read m a (length c + length (b' @ t)) = Inr (c @ (b' @ t))"
    using Suc.prems(3) by (simp add: b add.assoc)
  then have rc: "mem_read m a ?n = Inr c"
    and rr: "mem_read m (a + int ?n) (length b' + ?n) = Inr (b' @ t)"
    using mem_read_append [of m a c "b' @ t"] by (simp_all add: lc)
  have cne: "c \<noteq> t"
  proof
    assume "c = t"
    then have "sublist t b" unfolding b by (simp add: sublist_append)
    with Suc.prems(2) show False by simp
  qed
  have ns: "\<not> sublist t b'"
    using Suc.prems(2) unfolding b by (simp add: sublist_append)
  have "read_loop m (a + int ?n) t (acc @ c) = Inr ((acc @ c) @ b')"
    by (rule Suc.IH [OF lb' ns rr])
  then show ?case
    using rc cne by (subst read_loop.simps) (simp add: b)
qed

text \<open>
  C3, as stated, fails.  With the two-byte terminator and the one-byte data \<open>a\<close>, the
  memory holds the data and then the terminator, but the first chunk takes the
  terminator's first byte with it, and the scan goes on to the next aligned pair of zero
  bytes: the result is not the decoded data.
\<close>

theorem read_string_unaligned_counterexample:
  "\<not> sublist [0, 0] [97 :: nat] \<and>
   mem_read (fmap_of_list [(0, 97), (1, 0), (2, 0), (3, 98), (4, 0), (5, 0)]) 0
       (length ([97 :: nat] @ [0, 0])) = Inr ([97] @ [0, 0]) \<and>
   read_string (fmap_of_list [(0, 97), (1, 0), (2, 0), (3, 98), (4, 0), (5, 0)]) 0 [0, 0]
     = Inr [97, 0, 0, 98] \<and>
   decode_ignore [97] = [97]"
  by (simp add: read_string_def read_loop.simps is_continuation_def sublist_Cons_right)

text \<open>
  C3, amended.  For every byte sequence \<open>b\<close> that does not contain the terminator and
  whose length is a multiple of the terminator's length: if the memory at the address
  holds \<open>b\<close> followed by the terminator, \<open>read_string\<close> returns \<open>b\<close> decoded leniently
  (the decoding is a total function: it drops what does not decode).
\<close>

theorem read_string_returns_decoded:
  assumes "\<not> sublist t b" and "length t dvd length b"
    and "mem_read m a (length b + length t) = Inr (b @ t)"
  shows "read_string m a t = Inr (decode_ignore b)"
proof -
  from assms(2) obtain k where "length b = k * length t"
    by (auto simp: dvd_def mult.commute)
  then have "read_loop m a t [] = Inr ([] @ b)"
    using assms(1,3) by (rule read_loop_chunks)
  then show ?thesis by (simp add: read_string_def)
qed

theorem read_string_returns_decoded_witness:
  "\<not> sublist [0, 0] [104 :: nat, 0, 255, 0] \<and>
   length [0 :: nat, 0] dvd length [104 :: nat, 0, 255, 0] \<and>
   mem_read (fmap_of_list [(16, 104), (17, 0), (18, 255), (19, 0), (20, 0), (21, 0)]) 16
       (length [104 :: nat, 0, 255, 0] + length [0 :: nat, 0]) = Inr ([104, 0, 255, 0] @ [0, 0]) \<and>
   read_string (fmap_of_list [(16, 104), (17, 0), (18, 255), (19, 0), (20, 0), (21, 0)]) 16 [0, 0]
     = Inr [104, 0, 0]"
proof -
  have h1: "\<not> sublist [0, 0] [104 :: nat, 0, 255, 0]"
    by (simp add: sublist_Cons_right)
  have h2: "length [0 :: nat, 0] dvd length [104 :: nat, 0, 255, 0]"
    by code_simp
  have h3: "mem_read (fmap_of_list [(16, 104), (17, 0), (18, 255), (19, 0), (20, 0), (21, 0)]) 16
       (length [104 :: nat, 0, 255, 0] + length [0 :: nat, 0]) = Inr ([104, 0, 255, 0] @ [0, 0])"
    by simp
  show ?thesis
    using h1 h2 h3 read_string_returns_decoded [OF h1 h2 h3]
    by (simp add: is_continuation_def)
qed

text \<open>C8 at a wide string with a null byte inside each of its characters.\<close>

theorem read_wstring_no_null_witness:
  "fst (read_wstring
         \<lparr>mem = fmap_of_list [(16, 104), (17, 0), (18, 105), (19, 0), (20, 0), (21, 0)],
          logged = [], stdout = []\<rparr> 16) = Inr [104, 105]
   \<and> 0 \<notin> set [104 :: nat, 105]"
proof -
  have h: "fst (read_wstring
         \<lparr>mem = fmap_of_list [(16, 104), (17, 0), (18, 105), (19, 0), (20, 0), (21, 0)],
          logged = [], stdout = []\<rparr> 16) = Inr [104, 105]"
    by (simp add: read_wstring_def read_string_def read_loop.simps Let_def)
  show ?thesis
    using h read_wstring_no_null [OF h] by simp
qed

section \<open>Properties of the marshaller\<close>

lemma read_all_Inr:
  "read_all rp as = Inr vs \<longleftrightarrow>
     length vs = length as \<and> (\<forall>i<length as. rp (as ! i) = Inr (vs ! i))"
proof (induction as arbitrary: vs)
  case Nil
  then show ?case by auto
next
  case (Cons a as)
  show ?case
  proof (cases vs)
    case Nil
    then show ?thesis by (auto split: sum.splits)
  next
    case (Cons v vs')
    then show ?thesis
      using Cons.IH [of vs']
      by (auto split: sum.splits simp: nth_Cons' All_less_Suc2)
  qed
qed

text \<open>
  C2.  \<open>va_list\<close> returns a sequence exactly when every read succeeds, and then the
  sequence has one value for each \<open>%\<close> of the format string, counted as characters
  (so \<open>%%\<close> counts twice), the \<open>i\<close>-th read at \<open>ptr + i * pointersize\<close>.
\<close>

theorem va_list_reads:
  "va_list read_ptr pointersize format ptr = Inr vs \<longleftrightarrow>
     length vs = count_list format (ord CHR ''%'') \<and>
     (\<forall>i<length vs. read_ptr (ptr + int i * pointersize) = Inr (vs ! i))"
  by (auto simp: va_list_def Let_def read_all_Inr)

theorem va_list_reads_witness:
  "va_list (mem_read_ptr (fmap_of_list (zip (map int [32 ..< 44]) [0, 16, 0, 0, 42, 0, 0, 0, 7, 0, 0, 0])) 4)
      4 (str ''%x%%'') 32 = Inr [4096, 42, 7]"
  using va_list_reads [of "mem_read_ptr (fmap_of_list (zip (map int [32 ..< 44]) [0, 16, 0, 0, 42, 0, 0, 0, 7, 0, 0, 0])) 4" 4 "str ''%x%%''" 32 "[4096, 42, 7]"]
  by (simp add: str_def mem_read_ptr_def upt_rec All_less_Suc2 numeral_3_eq_3 eval_nat_numeral)

section \<open>Properties of the interpreter's first pass\<close>

lemma mem_read_error: "mem_read m a n = Inl e \<Longrightarrow> e = MemoryAccessError"
  by (induction n arbitrary: a) (auto split: option.splits sum.splits)

lemma read_loop_error: "read_loop m a t acc = Inl e \<Longrightarrow> e = MemoryAccessError"
proof (induction m a t acc rule: read_loop.induct)
  case (1 m address terminator result)
  show ?case
  proof (cases "mem_read m address (length terminator)")
    case (Inl e')
    with "1.prems" show ?thesis
      by (subst (asm) read_loop.simps) (simp add: mem_read_error)
  next
    case (Inr char)
    show ?thesis
    proof (cases "char = terminator")
      case True
      with Inr "1.prems" show ?thesis
        by (subst (asm) read_loop.simps) simp
    next
      case False
      with Inr "1.prems"
      have "read_loop m (address + int (length terminator)) terminator (result @ char) = Inl e"
        by (subst (asm) read_loop.simps) simp
      with "1.IH" [OF Inr False] show ?thesis by simp
    qed
  qed
qed

lemma read_string_error: "read_string m a t = Inl e \<Longrightarrow> e = MemoryAccessError"
  by (auto simp: read_string_def split: sum.splits dest: read_loop_error)

lemma reader_error: "reader w st a = (Inl e, st') \<Longrightarrow> e = MemoryAccessError"
  by (auto simp: reader_def read_wstring_def read_cstring_def Let_def
      split: if_splits sum.splits dest: read_string_error)



lemma split_on_length: "length (split_on sep cur s) = Suc (count_list s sep)"
  by (induction s arbitrary: cur) auto

lemma resolve_in_bounds:
  "i + length fs \<le> length args \<Longrightarrow> fst (resolve w i fs args st) \<noteq> Some IndexError"
proof (induction fs arbitrary: i args st)
  case Nil
  then show ?case by simp
next
  case (Cons f fs)
  then show ?case
    by (auto split: pyval.splits sum.splits prod.splits dest: reader_error)
qed






lemma parse_number_error: "parse_number lim ve acc fmt = Inl e \<Longrightarrow> e = ValueError ve"
  by (induction lim ve acc fmt rule: parse_number.induct) (auto split: if_splits)

lemma star_arg_error: "star_arg lim args = Inl e \<Longrightarrow> e \<noteq> IndexError"
  by (auto simp: star_arg_def getnextarg_def split: list.splits pyval.splits if_splits)

lemma parse_width_error: "parse_width sp fmt args = Inl e \<Longrightarrow> e \<noteq> IndexError"
  by (auto simp: parse_width_def split: list.splits if_splits sum.splits prod.splits
      dest: parse_number_error star_arg_error)

lemma parse_prec_error: "parse_prec sp fmt args = Inl e \<Longrightarrow> e \<noteq> IndexError"
  by (auto simp: parse_prec_def split: list.splits if_splits sum.splits prod.splits
      dest: parse_number_error star_arg_error)

lemma parse_spec_error: "parse_spec fmt args = Inl e \<Longrightarrow> e \<noteq> IndexError"
  by (auto simp: parse_spec_def split: list.splits if_splits sum.splits prod.splits
      dest: parse_width_error parse_prec_error)

lemma format_arg_error: "format_arg sp ch v = Inl e \<Longrightarrow> e \<noteq> IndexError"
  by (auto simp: format_arg_def format_char_def split: if_splits pyval.splits sum.splits)

lemma format_loop_error: "format_loop fmt args acc = Inl e \<Longrightarrow> e \<noteq> IndexError"
proof (induction fmt args acc rule: format_loop.induct)
  case (1 args acc)
  then show ?case by (auto simp: format_loop.simps split: if_splits)
next
  case (2 c fmt args acc)
  show ?case
  proof (cases "c \<noteq> ord CHR ''%''")
    case True
    with "2.prems" "2.IH"(1) show ?thesis by (simp add: format_loop.simps)
  next
    case pc: False
    show ?thesis
    proof (cases "prefix (str ''%'') fmt")
      case True
      with pc "2.prems" "2.IH"(2) show ?thesis by (simp add: format_loop.simps)
    next
      case np: False
      show ?thesis
      proof (cases "parse_spec fmt args")
        case (Inl e')
        with pc np "2.prems" show ?thesis
          by (auto simp: format_loop.simps dest: parse_spec_error)
      next
        case (Inr r)
        then obtain sp ch fmt' args' where r: "parse_spec fmt args = Inr (sp, ch, fmt', args')"
          by (cases r) auto
        show ?thesis
        proof (cases args')
          case Nil
          with pc np r "2.prems" show ?thesis
            by (auto simp: format_loop.simps getnextarg_def)
        next
          case (Cons v args'')
          then have g: "getnextarg args' = Inr (v, args'')" by (simp add: getnextarg_def)
          show ?thesis
          proof (cases "format_arg sp ch v")
            case (Inl e')
            with pc np r g "2.prems" show ?thesis
              by (auto simp: format_loop.simps dest: format_arg_error)
          next
            case (Inr t)
            with pc np r g "2.prems"
            have "format_loop fmt' args'' (acc @ t) = Inl e"
              by (simp add: format_loop.simps)
            with "2.IH"(3) [OF pc np r refl refl refl g refl Inr] show ?thesis by simp
          qed
        qed
      qed
    qed
  qed
qed


text \<open>
  C10.  With as many arguments as the format string has \<open>%\<close> characters, the loop never
  indexes the argument sequence out of range: neither it nor \<open>__common_printf\<close> as a
  whole raises \<open>IndexError\<close>.
\<close>

theorem resolve_index_in_bounds:
  assumes "length args = count_list format (ord CHR ''%'')"
  shows "fst (resolve wstring 0 (drop 1 (split_on (ord CHR ''%'') [] format)) args st)
           \<noteq> Some IndexError
         \<and> fst (common_printf format args wstring st) \<noteq> Inl IndexError"
proof -
  have "0 + length (drop 1 (split_on (ord CHR ''%'') [] format)) \<le> length args"
    using assms by (simp add: split_on_length)
  then have r: "fst (resolve wstring 0 (drop 1 (split_on (ord CHR ''%'') [] format)) args st)
           \<noteq> Some IndexError"
    by (rule resolve_in_bounds)
  then have "fst (common_printf format args wstring st) \<noteq> Inl IndexError"
    by (auto simp: common_printf_def Let_def percent_format_def
        split: prod.splits option.splits dest: format_loop_error)
  with r show ?thesis by simp
qed



theorem resolve_index_in_bounds_witness:
  "length [PInt 16, PInt 255] = count_list (str ''%s:%x'') (ord CHR ''%'')
   \<and> fst (resolve False 0 (drop 1 (split_on (ord CHR ''%'') [] (str ''%s:%x'')))
           [PInt 16, PInt 255] \<lparr>mem = fmempty, logged = [], stdout = []\<rparr>)
       \<noteq> Some IndexError
   \<and> fst (common_printf (str ''%s:%x'') [PInt 16, PInt 255] False
           \<lparr>mem = fmempty, logged = [], stdout = []\<rparr>) \<noteq> Inl IndexError"
proof -
  have h: "length [PInt 16, PInt 255] = count_list (str ''%s:%x'') (ord CHR ''%'')"
    by (simp add: str_def)
  from resolve_index_in_bounds [OF h] h show ?thesis by blast
qed

section \<open>Properties of the invocation tracer\<close>

lemma replicate_numeral: "replicate (numeral k) x = x # replicate (pred_numeral k) x"
  by (simp add: numeral_eq_Suc)

text \<open>
  C7, as stated, fails at an argument with an empty name: its name does not start with
  the ellipsis prefix, yet the line shows the bare value and no \<open>name = value\<close>.
\<close>

theorem print_function_empty_name_counterexample:
  "\<not> prefix ELLIPSIS_PREF [] \<and>
   snd (print_function 32 0 4 16400 (str ''hook_f'') [([], str ''0x2000'')] RNone False)
     = str ''f(0x2000)'' \<and>
   str ''f(0x2000)'' \<noteq> str ''f('' @ ([] @ str '' = '' @ str ''0x2000'') @ str '')''"
  by (simp add: print_function_def assign_arg_def ELLIPSIS_PREF_def str_def Let_def)

text \<open>
  C7, amended.  The line of \<open>print_function\<close> is: the address in hexadecimal, filled
  with zeros to the width of the architecture, only when the verbosity is at least the
  debug level; the function name without a leading \<open>hook_\<close>; in parentheses and
  separated by \<open>, \<close> the arguments, each as \<open>name = value\<close>, or as the bare value when
  its name is empty or starts with the ellipsis prefix; \<open> = \<close> and the return value only
  when there is one, an integer in hexadecimal; \<open> (PASSTHRU)\<close> only when the flag is
  set.  The line goes to the debug channel at debug verbosity and to the info channel
  below it.
\<close>

theorem print_function_line:
  "print_function bits verbose debug address fname pargs ret passthru =
     (if debug \<le> verbose then Debug else Info,
      (if debug \<le> verbose then format_hex (bits div 4 + 2) address @ str '': '' else [])
      @ (if prefix (str ''hook_'') fname then drop 5 fname else fname)
      @ str ''(''
      @ join (str '', '')
          (map (\<lambda>(name, value).
                  if name = [] \<or> prefix (str ''__qlva_'') name then value
                  else name @ str '' = '' @ value) pargs)
      @ str '')''
      @ (case ret of
           RNone \<Rightarrow> []
         | RInt v \<Rightarrow> str '' = '' @ (if v < 0 then str ''-'' else []) @ str ''0x''
                       @ digits 16 (nat \<bar>v\<bar>)
         | RStr r \<Rightarrow> str '' = '' @ r)
      @ (if passthru then str '' (PASSTHRU)'' else []))"
proof -
  have a: "assign_arg = (\<lambda>(name, value).
                  if name = [] \<or> prefix (str ''__qlva_'') name then value
                  else name @ str '' = '' @ value)"
    by (auto simp: assign_arg_def ELLIPSIS_PREF_def Let_def fun_eq_iff)
  have h: "format_hex 0 v = (if v < 0 then str ''-'' else []) @ str ''0x'' @ digits 16 (nat \<bar>v\<bar>)" for v
    by (simp add: format_hex_def Let_def)
  show ?thesis
    unfolding print_function_def Let_def a h
    by (cases ret) simp_all
qed

theorem print_function_line_witness:
  "print_function 64 1 4 16400 (str ''hook_strcpy'')
      [(str ''dst'', str ''0x2000''), (str ''__qlva_0'', str ''0x3000'')] RNone False
     = (Info, str ''strcpy(dst = 0x2000, 0x3000)'')
   \<and> print_function 64 1 4 16400 (str ''hook_strcpy'')
      [(str ''dst'', str ''0x2000''), (str ''__qlva_0'', str ''0x3000'')] (RInt 5) True
     = (Info, str ''strcpy(dst = 0x2000, 0x3000) = 0x5 (PASSTHRU)'')
   \<and> print_function 32 4 4 16400 (str ''strcpy'') [] (RStr (str ''ok'')) False
     = (Debug, str ''0x00004010: strcpy() = ok'')"
  unfolding print_function_line
  by (simp add: str_def digits.simps format_hex_def Let_def digit_char_def replicate_numeral)

section \<open>The rewriting of the format string\<close>















section \<open>Properties of the output sinks\<close>















section \<open>Writing a text and reading it back\<close>






















end
